theory Spec2Isabelle
  imports Complex_Main "HOL-Library.Sublist"
begin

section \<open>JavaScript strings\<close>

text \<open>
  A JavaScript string is a sequence of UTF-16 code units. The source matches and replaces
  code units outside ASCII (the multiplication sign U+00D7, the division sign U+00F7, the
  Greek letter pi U+03C0, the root sign U+221A), so a character is the number of its code
  unit, not an 8-bit \<^typ>\<open>char\<close>. \<open>str\<close> reads an ASCII literal.
\<close>

type_synonym jschar = nat
type_synonym jsstring = "jschar list"

definition str :: "string \<Rightarrow> jsstring" where
  "str cs = map of_char cs"

definition c_times :: jschar where "c_times = 215"
definition c_divide :: jschar where "c_divide = 247"
definition c_pi :: jschar where "c_pi = 960"
definition c_sqrt :: jschar where "c_sqrt = 8730"

section \<open>\<open>String.prototype.replace\<close> with a global literal pattern\<close>

text \<open>
  \<open>s.replace(/pat/g, rep)\<close> for a pattern without operators (\<open>/\<times>/g\<close>, \<open>/lg\(/g\<close>): the
  string is scanned from the left; where the pattern matches, the replacement is emitted
  and the scan goes on after the match; elsewhere one code unit is copied. The empty
  pattern matches before every code unit and at the end.
\<close>

fun replace_lit :: "jsstring \<Rightarrow> jsstring \<Rightarrow> jsstring \<Rightarrow> jsstring" where
  "replace_lit [] rep s = rep @ concat (map (\<lambda>c. c # rep) s)"
| "replace_lit (p # ps) rep [] = []"
| "replace_lit (p # ps) rep (c # cs) =
     (if prefix (p # ps) (c # cs)
      then rep @ replace_lit (p # ps) rep (drop (length ps) cs)
      else c # replace_lit (p # ps) rep cs)"

section \<open>The rewriting of the input buffer in \<open>handleCalculate\<close>\<close>

text \<open>
  \<^verbatim>\<open>let expression = input.replace(/\<times>/g, '*').replace(/\<div>/g, '/').replace(/\<pi>/g, 'pi');\<close>
  \<^verbatim>\<open>expression = expression.replace(/lg\(/g, 'log10(').replace(/ln\(/g, 'log(');\<close>
\<close>

definition normalize_expression :: "jsstring \<Rightarrow> jsstring" where
  "normalize_expression input_text =
     replace_lit (str ''ln('') (str ''log('')
       (replace_lit (str ''lg('') (str ''log10('')
         (replace_lit [c_pi] (str ''pi'')
           (replace_lit [c_divide] (str ''/'')
             (replace_lit [c_times] (str ''*'') input_text))))"


text \<open>
  A string on which the five rewritings have nothing left to do: none of the three
  glyphs and neither \<open>lg(\<close> nor \<open>ln(\<close> occurs in it.
\<close>

definition rewritten :: "jsstring \<Rightarrow> bool" where
  "rewritten s \<longleftrightarrow>
     c_times \<notin> set s \<and> c_divide \<notin> set s \<and> c_pi \<notin> set s \<and>
     \<not> sublist (str ''lg('') s \<and> \<not> sublist (str ''ln('') s"

section \<open>The regular expressions of \<open>recognition.onresult\<close>\<close>

text \<open>
  Every pattern of the handler has the shape \<open>/\b(a\<^sub>1|...|a\<^sub>n)\b/gi\<close> with non-empty
  alternatives. \<open>\w\<close> is \<open>[A-Za-z0-9_]\<close>; \<open>\b\<close> holds between two positions of which
  exactly one carries a word character (the ends of the string carry none). Under the
  flag \<open>i\<close> (without \<open>u\<close>) an ASCII letter of the pattern matches itself and its other
  case, and nothing outside ASCII; any other pattern character matches only itself.
\<close>

definition is_word_char :: "jschar \<Rightarrow> bool" where
  "is_word_char c \<longleftrightarrow>
     (48 \<le> c \<and> c \<le> 57) \<or> (65 \<le> c \<and> c \<le> 90) \<or> c = 95 \<or> (97 \<le> c \<and> c \<le> 122)"

definition word_boundary :: "jschar option \<Rightarrow> jsstring \<Rightarrow> bool" where
  "word_boundary prev rest \<longleftrightarrow>
     (case prev of None \<Rightarrow> False | Some c \<Rightarrow> is_word_char c)
       \<noteq> (case rest of [] \<Rightarrow> False | c # _ \<Rightarrow> is_word_char c)"

definition eq_ignore_case :: "jschar \<Rightarrow> jschar \<Rightarrow> bool" where
  "eq_ignore_case p c \<longleftrightarrow>
     c = p \<or> (97 \<le> p \<and> p \<le> 122 \<and> c + 32 = p) \<or> (65 \<le> p \<and> p \<le> 90 \<and> c = p + 32)"

fun match_ci :: "jsstring \<Rightarrow> jsstring \<Rightarrow> bool" where
  "match_ci [] s = True"
| "match_ci (p # ps) [] = False"
| "match_ci (p # ps) (c # cs) = (eq_ignore_case p c \<and> match_ci ps cs)"

text \<open>The code unit before position \<open>n\<close> of \<open>s\<close>, where \<open>prev\<close> stands before \<open>s\<close>.\<close>

definition char_before :: "jschar option \<Rightarrow> jsstring \<Rightarrow> nat \<Rightarrow> jschar option" where
  "char_before prev s n = (if n = 0 \<or> length s < n then prev else Some (s ! (n - 1)))"

text \<open>
  The alternatives are tried in order; one is taken when it matches at the start of \<open>s\<close>
  and the closing \<open>\b\<close> holds behind it, otherwise the matcher backtracks to the next.
  The result is the length of the match.
\<close>

fun match_alternatives :: "jsstring list \<Rightarrow> jschar option \<Rightarrow> jsstring \<Rightarrow> nat option" where
  "match_alternatives [] prev s = None"
| "match_alternatives (a # alts) prev s =
     (if match_ci a s \<and> word_boundary (char_before prev s (length a)) (drop (length a) s)
      then Some (length a)
      else match_alternatives alts prev s)"

definition match_at :: "jsstring list \<Rightarrow> jschar option \<Rightarrow> jsstring \<Rightarrow> nat option" where
  "match_at alts prev s =
     (if word_boundary prev s then match_alternatives alts prev s else None)"

text \<open>
  \<open>s.replace(/\b(a\<^sub>1|...|a\<^sub>n)\b/gi, rep)\<close>, scanning from the left; \<open>prev\<close> is the code unit
  of the original string before the current position. A match of length \<open>n \<ge> 1\<close> consumes
  \<open>c\<close> and the next \<open>n - 1\<close> code units.
\<close>

fun replace_words :: "jsstring list \<Rightarrow> jsstring \<Rightarrow> jschar option \<Rightarrow> jsstring \<Rightarrow> jsstring" where
  "replace_words alts rep prev [] = []"
| "replace_words alts rep prev (c # cs) =
     (case match_at alts prev (c # cs) of
        None \<Rightarrow> c # replace_words alts rep (Some c) cs
      | Some n \<Rightarrow>
          rep @ replace_words alts rep (char_before (Some c) cs (n - 1)) (drop (n - 1) cs))"

text \<open>The nineteen replacements of the handler, in the order of the chain.\<close>

definition transcript_rules :: "(jsstring list \<times> jsstring) list" where
  "transcript_rules =
    [([str ''one'', str ''won''], str ''1''),
     ([str ''two'', str ''to'', str ''too''], str ''2''),
     ([str ''three''], str ''3''),
     ([str ''four'', str ''for''], str ''4''),
     ([str ''five''], str ''5''),
     ([str ''six''], str ''6''),
     ([str ''seven''], str ''7''),
     ([str ''eight''], str ''8''),
     ([str ''nine''], str ''9''),
     ([str ''zero''], str ''0''),
     ([str ''plus'', str ''add''], str ''+''),
     ([str ''minus'', str ''subtract''], str ''-''),
     ([str ''times'', str ''multiply'', str ''multiplied by''], str ''*''),
     ([str ''divided by'', str ''divide'', str ''over''], str ''/''),
     ([str ''point'', str ''dot''], str ''.''),
     ([str ''x''], str ''*''),
     ([str ''power'', str ''to the power of''], str ''^''),
     ([str ''open parenthesis''], str ''(''),
     ([str ''close parenthesis''], str '')'')]"

definition replace_spoken :: "jsstring \<Rightarrow> jsstring" where
  "replace_spoken transcript =
     fold (\<lambda>(alts, rep) t. replace_words alts rep None t) transcript_rules transcript"

text \<open>\<open>transcript.replace(/[^0-9+\-*/^().]/g, '')\<close>: every other code unit is dropped.\<close>

definition calc_char :: "jschar \<Rightarrow> bool" where
  "calc_char c \<longleftrightarrow> (48 \<le> c \<and> c \<le> 57) \<or> c \<in> set (str ''+-*/^().'')"

definition sanitizedTranscript :: "jsstring \<Rightarrow> jsstring" where
  "sanitizedTranscript transcript = filter calc_char (replace_spoken transcript)"


section \<open>The environment of the component\<close>

text \<open>
  What \<open>App.tsx\<close> imports or finds in the browser is a parameter of the model: the
  functions and the constant of \<open>Math\<close>, \<open>evaluate\<close> of mathjs, the rendering
  \<open>Number(x.toFixed(10)).toString()\<close> of a number, \<open>String.prototype.toLowerCase\<close>,
  whether the browser offers \<open>SpeechRecognition\<close>, and the text that string concatenation
  makes of a member of \<open>Object.prototype\<close> (the source text of a native function differs
  between engines). Numbers are IEEE doubles in
  JavaScript; here a finite number is a real number, so rounding is outside the model,
  and the three numbers that are not finite stand for themselves. \<open>evaluate\<close> is typed
  \<open>any\<close>: it throws, or returns a number, or returns a value that has no method
  \<open>toFixed\<close> (a complex number, a matrix, a boolean, \<open>undefined\<close>).
\<close>

datatype js_error = EvaluateError | TypeError

datatype js_value = Num real | Infinity | MinusInfinity | NaN | NonNumber

type_synonym scope_t = "jsstring \<rightharpoonup> (real \<Rightarrow> real)"

record env =
  Math_sin :: "real \<Rightarrow> real"
  Math_cos :: "real \<Rightarrow> real"
  Math_tan :: "real \<Rightarrow> real"
  Math_asin :: "real \<Rightarrow> real"
  Math_acos :: "real \<Rightarrow> real"
  Math_atan :: "real \<Rightarrow> real"
  Math_PI :: real
  evaluate :: "jsstring \<Rightarrow> scope_t \<Rightarrow> js_error + js_value"
  toFixed10_toString :: "real \<Rightarrow> jsstring"
  toLowerCase :: "jsstring \<Rightarrow> jsstring"
  SpeechRecognition :: bool
  inherited_text :: "jsstring \<Rightarrow> jsstring"

section \<open>The state of \<open>App\<close>\<close>

text \<open>
  \<open>HistoryItem\<close> is \<open>{ input, result, date }\<close>; the date is the reading of the clock
  when the entry is made.
\<close>

record history_item =
  item_input :: jsstring
  item_result :: jsstring
  item_date :: nat

text \<open>
  The \<open>useState\<close> cells that the calculator's handlers read or write, and
  \<open>recognitionRef\<close> (whether it holds a recognition object). The theme, the active view
  and the scientific layout are not touched by these handlers and are left out. Two
  fields stand for the runtime: \<open>awaiting\<close> is the suspended call of \<open>handleCalculate\<close>
  (the \<open>input\<close> its closure captured) while \<open>await calculateWithGemini(input)\<close> is
  pending, and \<open>requests\<close> lists the arguments of every call of \<open>calculateWithGemini\<close>
  made so far.
\<close>

record state =
  input :: jsstring
  result :: jsstring
  history :: "history_item list"
  isLoading :: bool
  isGemini :: bool
  isDegrees :: bool
  is2nd :: bool
  errorKey :: nat
  isListening :: bool
  recognitionRef :: bool
  awaiting :: "jsstring option"
  requests :: "jsstring list"

definition initial :: state where
  "initial = \<lparr>input = [], result = str ''0'', history = [], isLoading = False,
     isGemini = False, isDegrees = False, is2nd = False, errorKey = 0,
     isListening = False, recognitionRef = False, awaiting = None, requests = []\<rparr>"

section \<open>\<open>handleClear\<close>, \<open>handleCalculate\<close>\<close>

definition handleClear :: "state \<Rightarrow> state" where
  "handleClear s = s\<lparr>input := [], result := str ''0'', isGemini := False\<rparr>"

text \<open>The \<open>scope\<close> object built in \<open>handleCalculate\<close> from \<open>isDegrees\<close>.\<close>

definition scope :: "env \<Rightarrow> bool \<Rightarrow> scope_t" where
  "scope env isDeg =
     (if isDeg then
        [str ''sin'' \<mapsto> (\<lambda>x. Math_sin env (x * Math_PI env / 180)),
         str ''cos'' \<mapsto> (\<lambda>x. Math_cos env (x * Math_PI env / 180)),
         str ''tan'' \<mapsto> (\<lambda>x. Math_tan env (x * Math_PI env / 180)),
         str ''asin'' \<mapsto> (\<lambda>x. Math_asin env x * 180 / Math_PI env),
         str ''acos'' \<mapsto> (\<lambda>x. Math_acos env x * 180 / Math_PI env),
         str ''atan'' \<mapsto> (\<lambda>x. Math_atan env x * 180 / Math_PI env)]
      else Map.empty)"

text \<open>
  The body of the outer \<open>try\<close> up to \<open>formattedResult\<close>: the rewriting, the call of
  \<open>evaluate\<close> and \<open>Number(mathResult.toFixed(10)).toString()\<close>. It throws when
  \<open>evaluate\<close> throws and when \<open>mathResult\<close> has no \<open>toFixed\<close>. On a number that is
  not finite \<open>toFixed\<close> returns its name, which \<open>Number\<close> reads back.
\<close>

definition formattedResult :: "env \<Rightarrow> state \<Rightarrow> js_error + jsstring" where
  "formattedResult env s =
     (case evaluate env (normalize_expression (input s)) (scope env (isDegrees s)) of
        Inl err \<Rightarrow> Inl err
      | Inr (Num x) \<Rightarrow> Inr (toFixed10_toString env x)
      | Inr Infinity \<Rightarrow> Inr (str ''Infinity'')
      | Inr MinusInfinity \<Rightarrow> Inr (str ''-Infinity'')
      | Inr NaN \<Rightarrow> Inr (str ''NaN'')
      | Inr NonNumber \<Rightarrow> Inl TypeError)"

text \<open>\<open>[item, ...prev].slice(0, 20)\<close>\<close>

definition prepend_slice :: "history_item \<Rightarrow> history_item list \<Rightarrow> history_item list" where
  "prepend_slice item prev = take 20 (item # prev)"

text \<open>
  \<open>handleCalculate\<close> from its call to its return or to the \<open>await\<close>. When the outer
  \<open>try\<close> throws, \<open>calculateWithGemini(input)\<close> is called with the captured \<open>input\<close> and
  the function is suspended; \<open>isLoading\<close> stays \<open>true\<close> and \<open>result\<close> empty meanwhile.
\<close>

definition handleCalculate :: "env \<Rightarrow> nat \<Rightarrow> state \<Rightarrow> state" where
  "handleCalculate env now s =
     (if input s = [] then s
      else case formattedResult env s of
        Inr r \<Rightarrow>
          s\<lparr>result := r,
            history := prepend_slice
              \<lparr>item_input = input s, item_result = r, item_date = now\<rparr> (history s),
            input := r, isGemini := False, isLoading := False\<rparr>
      | Inl err \<Rightarrow>
          s\<lparr>isLoading := True, result := [], awaiting := Some (input s),
            requests := requests s @ [input s]\<rparr>)"

text \<open>
  The promise of \<open>calculateWithGemini\<close> settles: it is rejected, or it resolves to a
  falsy value (\<open>None\<close>) or to an object with a field \<open>result\<close>.
\<close>

datatype gemini_outcome = Rejected | Resolved "jsstring option"

text \<open>The rest of \<open>handleCalculate\<close>, run when the promise settles.\<close>

definition handleCalculate_resume :: "nat \<Rightarrow> gemini_outcome \<Rightarrow> state \<Rightarrow> state" where
  "handleCalculate_resume now outcome s =
     (case awaiting s of
        None \<Rightarrow> s
      | Some captured \<Rightarrow>
          (case outcome of
             Rejected \<Rightarrow>
               s\<lparr>result := str ''API Error'', input := [], errorKey := errorKey s + 1,
                 isLoading := False, awaiting := None\<rparr>
           | Resolved None \<Rightarrow>
               s\<lparr>result := str ''Error'', input := [], errorKey := errorKey s + 1,
                 isLoading := False, awaiting := None\<rparr>
           | Resolved (Some r) \<Rightarrow>
               if r \<noteq> str ''Error'' then
                 s\<lparr>result := r,
                   history := prepend_slice
                     \<lparr>item_input = captured, item_result = r, item_date = now\<rparr> (history s),
                   input := r, isGemini := True, isLoading := False, awaiting := None\<rparr>
               else
                 s\<lparr>result := str ''Error'', input := [], errorKey := errorKey s + 1,
                   isLoading := False, awaiting := None\<rparr>))"

section \<open>Voice capture\<close>

text \<open>
  \<open>handleMicClick\<close> alerts and returns without \<open>SpeechRecognition\<close>; asks the running
  capture to stop while \<open>isListening\<close>; otherwise creates a recognition object, keeps it
  in \<open>recognitionRef\<close> and starts it. The callbacks of the object follow.
\<close>

definition handleMicClick :: "env \<Rightarrow> state \<Rightarrow> state" where
  "handleMicClick env s =
     (if \<not> SpeechRecognition env then s
      else if isListening s then s
      else s\<lparr>recognitionRef := True\<rparr>)"

definition onstart :: "state \<Rightarrow> state" where
  "onstart s = s\<lparr>isListening := True\<rparr>"

definition onend :: "state \<Rightarrow> state" where
  "onend s = s\<lparr>isListening := False, recognitionRef := False\<rparr>"

definition onerror :: "state \<Rightarrow> state" where
  "onerror s = s\<lparr>isListening := False, recognitionRef := False\<rparr>"

definition onresult :: "env \<Rightarrow> jsstring \<Rightarrow> state \<Rightarrow> state" where
  "onresult env transcript s =
     s\<lparr>input := input s @ sanitizedTranscript (toLowerCase env transcript)\<rparr>"


section \<open>\<open>handleButtonClick\<close>, \<open>handleHistoryClick\<close>\<close>

text \<open>The own keys of the object \<open>functions\<close> of the handler, which depends on \<open>is2nd\<close>.\<close>

definition functions_tbl :: "bool \<Rightarrow> (jsstring \<rightharpoonup> jsstring)" where
  "functions_tbl second =
     [str ''sin'' \<mapsto> (if second then str ''asin('' else str ''sin(''),
      str ''cos'' \<mapsto> (if second then str ''acos('' else str ''cos(''),
      str ''tan'' \<mapsto> (if second then str ''atan('' else str ''tan(''),
      str ''lg'' \<mapsto> (if second then str ''10^'' else str ''lg(''),
      str ''ln'' \<mapsto> (if second then str ''e^'' else str ''ln(''),
      [c_sqrt] \<mapsto> (if second then str ''^2'' else str ''sqrt('')]"

text \<open>
  \<open>functions\<close> is an object literal, so \<open>functions[value]\<close> also answers for the names
  it inherits from \<open>Object.prototype\<close>: eleven functions and \<open>__proto__\<close>, all truthy.
  For these the handler appends the member, turned into a string, to the input buffer.
\<close>

definition Object_prototype_names :: "jsstring list" where
  "Object_prototype_names =
     [str ''constructor'', str ''hasOwnProperty'', str ''isPrototypeOf'',
      str ''propertyIsEnumerable'', str ''toLocaleString'', str ''toString'', str ''valueOf'',
      str ''__proto__'', str ''__defineGetter__'', str ''__defineSetter__'',
      str ''__lookupGetter__'', str ''__lookupSetter__'']"

text \<open>\<open>functions[value]\<close>, where \<open>None\<close> is \<open>undefined\<close>.\<close>

definition functions_lookup :: "env \<Rightarrow> bool \<Rightarrow> jsstring \<Rightarrow> jsstring option" where
  "functions_lookup env second v =
     (case functions_tbl second v of
        Some f \<Rightarrow> Some f
      | None \<Rightarrow>
          if v \<in> set Object_prototype_names then Some (inherited_text env v) else None)"

text \<open>The list \<open>['+', '-', '\<times>', '\<div>', '%', '^']\<close> of the default case.\<close>

definition operators :: "jsstring list" where
  "operators = [str ''+'', str ''-'', [c_times], [c_divide], str ''%'', str ''^'']"

text \<open>The labels that the \<open>switch\<close> handles before its default case.\<close>

definition switch_cases :: "jsstring list" where
  "switch_cases =
     [str ''AC'', str ''='', str ''('', str '')'', str ''Deg'', str ''2nd'', str ''x^y'',
      str ''!'', str ''1/x'', str ''e'', [c_pi], str ''MIC'', str ''DEL'']"

definition handleButtonClick :: "env \<Rightarrow> nat \<Rightarrow> jsstring \<Rightarrow> state \<Rightarrow> state" where
  "handleButtonClick env now v s =
     (if isLoading s then s
      else case functions_lookup env (is2nd s) v of
        Some f \<Rightarrow> s\<lparr>input := input s @ f\<rparr>
      | None \<Rightarrow>
          if v = str ''AC'' then handleClear s
          else if v = str ''='' then handleCalculate env now s
          else if v = str ''('' then s\<lparr>input := input s @ str ''(''\<rparr>
          else if v = str '')'' then s\<lparr>input := input s @ str '')''\<rparr>
          else if v = str ''Deg'' then s\<lparr>isDegrees := \<not> isDegrees s\<rparr>
          else if v = str ''2nd'' then s\<lparr>is2nd := \<not> is2nd s\<rparr>
          else if v = str ''x^y'' then s\<lparr>input := input s @ str ''^''\<rparr>
          else if v = str ''!'' then s\<lparr>input := input s @ str ''!''\<rparr>
          else if v = str ''1/x'' then s\<lparr>input := input s @ str ''1/''\<rparr>
          else if v = str ''e'' then s\<lparr>input := input s @ str ''e''\<rparr>
          else if v = [c_pi] then s\<lparr>input := input s @ [c_pi]\<rparr>
          else if v = str ''MIC'' then handleMicClick env s
          else if v = str ''DEL'' then s\<lparr>input := butlast (input s)\<rparr>
          else if result s \<noteq> str ''0'' \<and> input s = result s \<and> v \<notin> set operators
            then s\<lparr>input := v\<rparr>
          else s\<lparr>input := input s @ v\<rparr>)"

definition handleHistoryClick :: "jsstring \<Rightarrow> state \<Rightarrow> state" where
  "handleHistoryClick v s = s\<lparr>input := v, result := v, isGemini := False\<rparr>"

text \<open>
  Modelled from the spec: the component \<open>Display\<close>, which renders the history and calls
  \<open>onHistoryClick\<close>, is not among the sources; selecting an entry passes the entry's stored
  result text to the handler.
\<close>

definition select_history_entry :: "history_item \<Rightarrow> state \<Rightarrow> state" where
  "select_history_entry item s = handleHistoryClick (item_result item) s"

section \<open>The session as a sequence of events\<close>

text \<open>
  Each event is handled to its end (or to the \<open>await\<close>) before the next, at the time
  it carries: a press on the keypad, a click on a history entry, the callbacks of the
  recognition object, and the settling of the pending promise.
\<close>

datatype event =
    ButtonClick jsstring
  | HistoryClick jsstring
  | SpeechStart
  | SpeechResult jsstring
  | SpeechError
  | SpeechEnd
  | GeminiSettled gemini_outcome

fun step :: "env \<Rightarrow> nat \<times> event \<Rightarrow> state \<Rightarrow> state" where
  "step env (now, ButtonClick v) s = handleButtonClick env now v s"
| "step env (now, HistoryClick v) s = handleHistoryClick v s"
| "step env (now, SpeechStart) s = onstart s"
| "step env (now, SpeechResult transcript) s = onresult env transcript s"
| "step env (now, SpeechError) s = onerror s"
| "step env (now, SpeechEnd) s = onend s"
| "step env (now, GeminiSettled outcome) s = handleCalculate_resume now outcome s"

definition run :: "env \<Rightarrow> (nat \<times> event) list \<Rightarrow> state \<Rightarrow> state" where
  "run env evs s = fold (step env) evs s"

fun is_settled :: "event \<Rightarrow> bool" where
  "is_settled (GeminiSettled outcome) = True"
| "is_settled ev = False"

section \<open>A concrete environment\<close>

text \<open>
  An engine that knows three expressions: \<open>5\<close> evaluates to the number 5, \<open>sqrt(-4)\<close>
  to a complex number (as mathjs does), and everything else, such as \<open>(2+3\<close>, throws.
  Lower-casing acts on the ASCII letters. An inherited function is rendered without its
  name.
\<close>

definition sample_env :: env where
  "sample_env =
     \<lparr>Math_sin = sin, Math_cos = cos, Math_tan = tan,
      Math_asin = arcsin, Math_acos = arccos, Math_atan = arctan, Math_PI = pi,
      evaluate = (\<lambda>e sc. if e = str ''5'' then Inr (Num 5)
                          else if e = str ''sqrt(-4)'' then Inr NonNumber
                          else Inl EvaluateError),
      toFixed10_toString = (\<lambda>x. if x = 5 then str ''5'' else []),
      toLowerCase = map (\<lambda>c. if 65 \<le> c \<and> c \<le> 90 then c + 32 else c),
      SpeechRecognition = True,
      inherited_text = (\<lambda>name. if name = str ''__proto__'' then str ''[object Object]''
                                  else str ''function () { [native code] }'')\<rparr>"


section \<open>Sample sessions\<close>

text \<open>
  Sessions with the concrete environment, used to run the handlers on explicit inputs.
  \<open>idle_trace\<close>: the keys \<open>5\<close> and \<open>=\<close>. \<open>busy_trace\<close>: then \<open>(\<close> and \<open>=\<close>, on which
  the engine throws, and a click on the history entry while the promise is pending.
  \<open>listening_trace\<close>: \<open>(\<close>, the microphone key, the start of the capture, and \<open>=\<close>.
  \<open>unbalanced_trace\<close> types \<open>(2+3\<close>; \<open>sqrt_trace\<close> types \<open>sqrt(-4)\<close>.
  \<open>evaluations n\<close>: the key \<open>5\<close> and then \<open>n\<close> times \<open>=\<close>, at the times \<open>1, ..., n\<close>.
\<close>

definition idle_trace :: "(nat \<times> event) list" where
  "idle_trace = [(1, ButtonClick (str ''5'')), (2, ButtonClick (str ''=''))]"

definition busy_trace :: "(nat \<times> event) list" where
  "busy_trace =
     [(1, ButtonClick (str ''5'')), (2, ButtonClick (str ''='')),
      (3, ButtonClick (str ''('')), (4, ButtonClick (str ''='')),
      (5, HistoryClick (str ''5''))]"

definition listening_trace :: "(nat \<times> event) list" where
  "listening_trace =
     [(1, ButtonClick (str ''('')), (2, ButtonClick (str ''MIC'')), (3, SpeechStart),
      (4, ButtonClick (str ''=''))]"

definition unbalanced_trace :: "(nat \<times> event) list" where
  "unbalanced_trace =
     [(1, ButtonClick (str ''('')), (2, ButtonClick (str ''2'')),
      (3, ButtonClick (str ''+'')), (4, ButtonClick (str ''3''))]"

definition sqrt_trace :: "(nat \<times> event) list" where
  "sqrt_trace =
     [(1, ButtonClick [c_sqrt]), (2, ButtonClick (str ''-'')),
      (3, ButtonClick (str ''4'')), (4, ButtonClick (str '')''))]"

definition entry :: "nat \<Rightarrow> history_item" where
  "entry t = \<lparr>item_input = str ''5'', item_result = str ''5'', item_date = t\<rparr>"

definition evaluations :: "nat \<Rightarrow> (nat \<times> event) list" where
  "evaluations n =
     (0, ButtonClick (str ''5'')) # map (\<lambda>t. (t, ButtonClick (str ''=''))) [1..<Suc n]"

text \<open>A history is ordered by recency when the dates do not increase from its head on.\<close>

definition newest_first :: "history_item list \<Rightarrow> bool" where
  "newest_first h = sorted_wrt (\<lambda>a b. item_date b \<le> item_date a) h"


section \<open>Facts about the literal replacement\<close>

lemma replace_lit_absent:
  "\<not> sublist (p # ps) s \<Longrightarrow> replace_lit (p # ps) rep s = s"
  by (induction s) (auto simp: sublist_Cons_right)

lemma replace_lit_set:
  "set (replace_lit (p # ps) rep s) \<subseteq> set s \<union> set rep"
proof (induction "p # ps" rep s rule: replace_lit.induct)
  case (3 rep c cs)
  then show ?case
    using set_drop_subset [of "length ps" cs] by (auto split: if_splits)
qed simp

lemma replace_lit_char_gone:
  "c \<notin> set rep \<Longrightarrow> c \<notin> set (replace_lit [c] rep s)"
  by (induction s) auto

lemma replace_lit_head:
  assumes "replace_lit (p # ps) (h # rep) s = x # r" and "x \<noteq> h"
  shows "\<exists>cs. s = x # cs \<and> r = replace_lit (p # ps) (h # rep) cs"
  using assms by (cases s) (auto split: if_splits)

lemma sublist_single: "sublist [c] s \<longleftrightarrow> c \<in> set s"
  by (induction s) (auto simp: sublist_Cons_right)

lemma sublist_of_drop: "sublist q (drop n s) \<Longrightarrow> sublist q s"
  by (rule sublist_order.order_trans [OF _ sublist_drop])

lemma replace_lit_no_new:
  assumes "[a, b, c] = p # ps \<or> \<not> sublist [a, b, c] s"
    and "b \<noteq> h" and "c \<noteq> h"
    and "\<And>t. \<not> sublist [a, b, c] t \<Longrightarrow> \<not> sublist [a, b, c] ((h # rep) @ t)"
  shows "\<not> sublist [a, b, c] (replace_lit (p # ps) (h # rep) s)"
  using assms(1)
proof (induction "p # ps" "h # rep" s rule: replace_lit.induct)
  case 2
  then show ?case by simp
next
  case (3 x xs)
  let ?f = "replace_lit (p # ps) (h # rep)"
  show ?case
  proof (cases "prefix (p # ps) (x # xs)")
    case True
    from 3(3) have "[a, b, c] = p # ps \<or> \<not> sublist [a, b, c] (drop (length ps) xs)"
      using sublist_of_drop [of "[a, b, c]" "length ps" xs] by (auto simp: sublist_Cons_right)
    with 3(1) True have "\<not> sublist [a, b, c] (?f (drop (length ps) xs))" by simp
    from assms(4) [OF this] True show ?thesis by simp
  next
    case False
    from 3(3) have "[a, b, c] = p # ps \<or> \<not> sublist [a, b, c] xs"
      by (auto simp: sublist_Cons_right)
    with 3(2) False have ih: "\<not> sublist [a, b, c] (?f xs)" by simp
    have "\<not> prefix [a, b, c] (x # ?f xs)"
    proof
      assume "prefix [a, b, c] (x # ?f xs)"
      then obtain r where x: "x = a" and r: "?f xs = b # c # r"
        by (auto simp: prefix_def)
      from replace_lit_head [OF r assms(2)] obtain ys where ys: "xs = b # ys"
        and r': "?f ys = c # r"
        by auto
      from replace_lit_head [OF r' assms(3)] obtain zs where "ys = c # zs" by auto
      with x ys have "prefix [a, b, c] (x # xs)" by simp
      with 3(3) False show False by (auto simp: sublist_Cons_right)
    qed
    with ih False show ?thesis by (auto simp add: sublist_Cons_right)
  qed
qed

lemma replace_lit_keeps_out:
  "c \<notin> set s \<Longrightarrow> c \<notin> set rep \<Longrightarrow> c \<notin> set (replace_lit (p # ps) rep s)"
  using replace_lit_set [of p ps rep s] by auto

lemma normalize_expression_rewritten: "rewritten (normalize_expression s)"
proof -
  let ?s1 = "replace_lit [c_times] [42] s"
  let ?s2 = "replace_lit [c_divide] [47] ?s1"
  let ?s3 = "replace_lit [c_pi] [112, 105] ?s2"
  let ?s4 = "replace_lit [108, 103, 40] [108, 111, 103, 49, 48, 40] ?s3"
  let ?s5 = "replace_lit [108, 110, 40] [108, 111, 103, 40] ?s4"
  have out: "normalize_expression s = ?s5"
    by (simp add: normalize_expression_def str_def)
  have "c_times \<notin> set ?s1"
    by (rule replace_lit_char_gone) (simp add: c_times_def)
  then have t: "c_times \<notin> set ?s5"
    by (simp add: replace_lit_keeps_out c_times_def)
  have "c_divide \<notin> set ?s2"
    by (rule replace_lit_char_gone) (simp add: c_divide_def)
  then have d: "c_divide \<notin> set ?s5"
    by (simp add: replace_lit_keeps_out c_divide_def)
  have "c_pi \<notin> set ?s3"
    by (rule replace_lit_char_gone) (simp add: c_pi_def)
  then have p: "c_pi \<notin> set ?s5"
    by (simp add: replace_lit_keeps_out c_pi_def)
  have lg4: "\<not> sublist [108, 103, 40] ?s4"
    by (rule replace_lit_no_new) (simp_all add: sublist_Cons_right)
  have lg: "\<not> sublist [108, 103, 40] ?s5"
    by (rule replace_lit_no_new [OF disjI2 [OF lg4]]) (simp_all add: sublist_Cons_right)
  have ln: "\<not> sublist [108, 110, 40] ?s5"
    by (rule replace_lit_no_new) (simp_all add: sublist_Cons_right)
  from t d p lg ln show ?thesis
    unfolding out rewritten_def by (simp add: str_def)
qed

lemma normalize_expression_unchanged:
  assumes "rewritten s"
  shows "normalize_expression s = s"
proof -
  from assms have "\<not> sublist [c_times] s" "\<not> sublist [c_divide] s" "\<not> sublist [c_pi] s"
    "\<not> sublist (str ''lg('') s" "\<not> sublist (str ''ln('') s"
    by (simp_all add: rewritten_def sublist_single)
  then show ?thesis
    by (simp add: normalize_expression_def str_def replace_lit_absent)
qed

text \<open>
  C4. The rewriting of the input buffer (\<open>\<times>\<close> to \<open>*\<close>, \<open>\<div>\<close> to \<open>/\<close>, \<open>\<pi>\<close> to \<open>pi\<close>,
  \<open>lg(\<close> to \<open>log10(\<close>, \<open>ln(\<close> to \<open>log(\<close>) is idempotent: applied to its own output it
  changes nothing, for every input string. In particular \<open>2\<times>3\<div>4\<close> is rewritten to
  \<open>2*3/4\<close>, and \<open>2*3/4\<close> to itself.
\<close>

theorem normalize_expression_idempotent:
  "normalize_expression (normalize_expression s) = normalize_expression s
   \<and> normalize_expression (str ''2'' @ [c_times] @ str ''3'' @ [c_divide] @ str ''4'') = str ''2*3/4''
   \<and> normalize_expression (str ''2*3/4'') = str ''2*3/4''"
proof (intro conjI)
  show "normalize_expression (normalize_expression s) = normalize_expression s"
    by (rule normalize_expression_unchanged) (rule normalize_expression_rewritten)
  show "normalize_expression (str ''2'' @ [c_times] @ str ''3'' @ [c_divide] @ str ''4'') = str ''2*3/4''"
    by (simp add: normalize_expression_def str_def c_times_def c_divide_def c_pi_def)
  show "normalize_expression (str ''2*3/4'') = str ''2*3/4''"
    by (simp add: normalize_expression_def str_def c_times_def c_divide_def c_pi_def)
qed



section \<open>Evaluating the handlers\<close>

lemmas handler_defs = handleButtonClick_def handleCalculate_def handleCalculate_resume_def
  handleHistoryClick_def handleMicClick_def onstart_def onend_def onerror_def onresult_def
  handleClear_def prepend_slice_def

lemmas sample_defs = run_def formattedResult_def normalize_expression_def functions_tbl_def
  functions_lookup_def Object_prototype_names_def operators_def switch_cases_def initial_def
  sample_env_def str_def c_times_def c_divide_def c_pi_def c_sqrt_def

lemmas regex_defs = sanitizedTranscript_def replace_spoken_def transcript_rules_def match_at_def
  word_boundary_def is_word_char_def char_before_def eq_ignore_case_def calc_char_def

lemma run_Nil: "run env [] s = s"
  by (simp add: run_def)

lemma run_Cons: "run env (e # evs) s = run env evs (step env e s)"
  by (simp add: run_def)

lemma run_append: "run env (evs @ evs') s = run env evs' (run env evs s)"
  by (simp add: run_def)

lemma equals_not_in_functions: "functions_lookup env second (str ''='') = None"
  by (simp add: functions_lookup_def functions_tbl_def Object_prototype_names_def str_def
      c_sqrt_def)

lemma handleButtonClick_while_loading:
  "isLoading s \<Longrightarrow> handleButtonClick env now v s = s"
  by (simp add: handleButtonClick_def)

text \<open>A name inherited from \<open>Object.prototype\<close> is not a label of the default case.\<close>

lemma inherited_name_appended:
  "\<not> isLoading s \<Longrightarrow>
     handleButtonClick env now (str ''constructor'') s
       = s\<lparr>input := input s @ inherited_text env (str ''constructor'')\<rparr>"
  by (simp add: handleButtonClick_def functions_lookup_def functions_tbl_def
      Object_prototype_names_def str_def c_sqrt_def)

lemma idle_state:
  "run sample_env idle_trace initial =
     \<lparr>input = str ''5'', result = str ''5'',
      history = [\<lparr>item_input = str ''5'', item_result = str ''5'', item_date = 2\<rparr>],
      isLoading = False, isGemini = False, isDegrees = False, is2nd = False, errorKey = 0,
      isListening = False, recognitionRef = False, awaiting = None, requests = []\<rparr>"
  by (simp add: idle_trace_def handler_defs sample_defs)

lemma busy_state:
  "run sample_env busy_trace initial =
     \<lparr>input = str ''5'', result = str ''5'',
      history = [\<lparr>item_input = str ''5'', item_result = str ''5'', item_date = 2\<rparr>],
      isLoading = True, isGemini = False, isDegrees = False, is2nd = False, errorKey = 0,
      isListening = False, recognitionRef = False, awaiting = Some (str ''5(''),
      requests = [str ''5('']\<rparr>"
  by (simp add: busy_trace_def handler_defs sample_defs)

lemma listening_state:
  "run sample_env listening_trace initial =
     \<lparr>input = str ''('', result = [], history = [], isLoading = True, isGemini = False,
      isDegrees = False, is2nd = False, errorKey = 0, isListening = True,
      recognitionRef = True, awaiting = Some (str ''(''), requests = [str ''('']\<rparr>"
  by (simp add: listening_trace_def handler_defs sample_defs)

lemma unbalanced_state:
  "run sample_env unbalanced_trace initial = initial\<lparr>input := str ''(2+3''\<rparr>"
  by (simp add: unbalanced_trace_def handler_defs sample_defs)

lemma sqrt_state:
  "run sample_env sqrt_trace initial = initial\<lparr>input := str ''sqrt(-4)''\<rparr>"
  by (simp add: sqrt_trace_def handler_defs sample_defs)

section \<open>The fallback is called when the guarded block throws\<close>

text \<open>
  C1, as the code has it. \<open>handleCalculate\<close> calls the fallback exactly when the outer
  \<open>try\<close> throws: when \<open>evaluate\<close> throws, and also when it returns a value that is not a
  number, on which \<open>toFixed\<close> fails. It then makes exactly one call, with the input buffer
  as typed (not the rewritten expression). When the engine returns a number, finite or
  not, and when the buffer is empty, it makes no call; the continuation after the
  \<open>await\<close> makes none.
\<close>

theorem fallback_calls_of_handleCalculate:
  "requests (handleCalculate env now s) =
     (if input s = [] then requests s
      else case evaluate env (normalize_expression (input s)) (scope env (isDegrees s)) of
             Inl err \<Rightarrow> requests s @ [input s]
           | Inr NonNumber \<Rightarrow> requests s @ [input s]
           | Inr number \<Rightarrow> requests s)
   \<and> requests (handleCalculate_resume later outcome s') = requests s'"
  by (simp add: handleCalculate_def handleCalculate_resume_def formattedResult_def
      split: sum.splits js_value.splits option.splits gemini_outcome.splits)

text \<open>
  C1 as stated fails: the keys \<open>\<surd>\<close>, \<open>-\<close>, \<open>4\<close>, \<open>)\<close> type \<open>sqrt(-4)\<close>; the engine
  evaluates it without throwing, to a value that is not a number; \<open>handleCalculate\<close> calls
  the fallback all the same.
\<close>

theorem fallback_after_engine_success:
  "run sample_env sqrt_trace initial = initial\<lparr>input := str ''sqrt(-4)''\<rparr>
   \<and> evaluate sample_env (normalize_expression (str ''sqrt(-4)'')) (scope sample_env False)
       = Inr NonNumber
   \<and> requests (handleCalculate sample_env 5 (initial\<lparr>input := str ''sqrt(-4)''\<rparr>))
       = [str ''sqrt(-4)'']"
  unfolding sqrt_state by (simp add: handler_defs sample_defs)

section \<open>The scope of the evaluation\<close>

text \<open>
  C5. The scope handed to \<open>evaluate\<close> depends on the angle mode only. In degrees it binds
  exactly \<open>sin\<close>, \<open>cos\<close>, \<open>tan\<close>, \<open>asin\<close>, \<open>acos\<close>, \<open>atan\<close>: the first three multiply
  the argument by \<open>\<pi>/180\<close> before the radian function of \<open>Math\<close>, the other three
  multiply the result of the radian function by \<open>180/\<pi>\<close>. In radians the scope is empty.
\<close>

theorem scope_by_angle_mode:
  "scope env (isDegrees s) = (if isDegrees s then scope env True else Map.empty)
   \<and> dom (scope env True) =
       {str ''sin'', str ''cos'', str ''tan'', str ''asin'', str ''acos'', str ''atan''}
   \<and> map_option (\<lambda>f. f x) (scope env True (str ''sin''))
       = Some (Math_sin env (x * (Math_PI env / 180)))
   \<and> map_option (\<lambda>f. f x) (scope env True (str ''cos''))
       = Some (Math_cos env (x * (Math_PI env / 180)))
   \<and> map_option (\<lambda>f. f x) (scope env True (str ''tan''))
       = Some (Math_tan env (x * (Math_PI env / 180)))
   \<and> map_option (\<lambda>f. f x) (scope env True (str ''asin''))
       = Some (Math_asin env x * (180 / Math_PI env))
   \<and> map_option (\<lambda>f. f x) (scope env True (str ''acos''))
       = Some (Math_acos env x * (180 / Math_PI env))
   \<and> map_option (\<lambda>f. f x) (scope env True (str ''atan''))
       = Some (Math_atan env x * (180 / Math_PI env))
   \<and> scope env False = Map.empty"
  by (auto simp add: scope_def str_def)

section \<open>Selecting a history entry\<close>

text \<open>
  C9. \<open>handleHistoryClick\<close> sets the input buffer and the displayed result to the text
  it is given, whatever the buffer held before; selecting a history entry gives it the
  entry's stored result text.
\<close>

theorem history_click_sets_both:
  "input (handleHistoryClick v s) = v \<and> result (handleHistoryClick v s) = v
   \<and> input (select_history_entry item s) = item_result item
   \<and> result (select_history_entry item s) = item_result item
   \<and> step env (now, HistoryClick (item_result item)) s = select_history_entry item s"
  by (simp add: select_history_entry_def handleHistoryClick_def)


section \<open>The default case of the keypad\<close>

text \<open>
  C10, as the code has it. While no evaluation is in progress, when the displayed result
  is not \<open>0\<close> and the input buffer equals the displayed result, a keypad label that
  reaches the default case of the \<open>switch\<close> (one for which \<open>functions[value]\<close> is
  \<open>undefined\<close> and which is not a label of the \<open>switch\<close>) replaces the whole buffer unless
  it is one of \<open>+ - \<times> \<div> % ^\<close>; one of these six is appended. While an evaluation is
  in progress a press changes nothing, whatever the label and the state.
\<close>

theorem default_literal_press:
  "(isLoading s' \<longrightarrow> handleButtonClick env now' v' s' = s')
   \<and> (\<not> isLoading s \<and> functions_lookup env (is2nd s) v = None \<and> v \<notin> set switch_cases
        \<and> result s \<noteq> str ''0'' \<and> input s = result s \<longrightarrow>
      input (handleButtonClick env now v s) = (if v \<in> set operators then input s @ v else v))"
proof (intro conjI impI)
  show "handleButtonClick env now' v' s' = s'" if "isLoading s'"
    using that by (rule handleButtonClick_while_loading)
  show "input (handleButtonClick env now v s) = (if v \<in> set operators then input s @ v else v)"
    if "\<not> isLoading s \<and> functions_lookup env (is2nd s) v = None \<and> v \<notin> set switch_cases
        \<and> result s \<noteq> str ''0'' \<and> input s = result s"
    using that by (simp add: handleButtonClick_def switch_cases_def)
qed

text \<open>
  The theorem of C10 at two states of the sample sessions. After \<open>5\<close> and \<open>=\<close> the buffer
  and the result are both \<open>5\<close> and nothing is loading: the key \<open>7\<close> replaces the buffer,
  the key \<open>+\<close> is appended. In the state of \<open>busy_trace\<close>, which is loading, the key \<open>7\<close>
  leaves the state as it is.
\<close>

theorem default_literal_press_witness:
  "\<not> isLoading (run sample_env idle_trace initial)
   \<and> result (run sample_env idle_trace initial) = str ''5''
   \<and> input (run sample_env idle_trace initial) = str ''5''
   \<and> functions_lookup sample_env False (str ''7'') = None
   \<and> functions_lookup sample_env False (str ''+'') = None
   \<and> input (handleButtonClick sample_env 3 (str ''7'') (run sample_env idle_trace initial))
       = str ''7''
   \<and> input (handleButtonClick sample_env 3 (str ''+'') (run sample_env idle_trace initial))
       = str ''5+''
   \<and> isLoading (run sample_env busy_trace initial)
   \<and> handleButtonClick sample_env 6 (str ''7'') (run sample_env busy_trace initial)
       = run sample_env busy_trace initial"
proof -
  let ?s = "run sample_env idle_trace initial"
  let ?b = "run sample_env busy_trace initial"
  have idle: "\<not> isLoading ?s" and same: "input ?s = result ?s"
    and nz: "result ?s \<noteq> str ''0''" and r: "result ?s = str ''5''"
    and second: "is2nd ?s = False"
    unfolding idle_state by (simp_all add: str_def)
  have busy: "isLoading ?b"
    unfolding busy_state by simp
  have k7: "functions_lookup sample_env False (str ''7'') = None"
    and kp: "functions_lookup sample_env False (str ''+'') = None"
    and sw: "str ''7'' \<notin> set switch_cases" "str ''+'' \<notin> set switch_cases"
    and op: "str ''7'' \<notin> set operators" "str ''+'' \<in> set operators"
    by (simp_all add: sample_defs)
  note at7 = default_literal_press [of ?b sample_env 6 "str ''7''" ?s "str ''7''" 3]
  note atp = default_literal_press [of ?b sample_env 6 "str ''7''" ?s "str ''+''" 3]
  from at7 idle k7 sw(1) nz same second op(1)
  have "input (handleButtonClick sample_env 3 (str ''7'') ?s) = str ''7''"
    by simp
  moreover from atp idle kp sw(2) nz same second op(2) r
  have "input (handleButtonClick sample_env 3 (str ''+'') ?s) = str ''5+''"
    by (simp add: str_def)
  moreover from at7 busy
  have "handleButtonClick sample_env 6 (str ''7'') ?b = ?b"
    by blast
  ultimately show ?thesis
    using idle same r k7 kp busy by simp
qed

text \<open>
  C10 as stated fails while an evaluation is in progress. \<open>busy_trace\<close> presses \<open>5\<close> and
  \<open>=\<close>, then \<open>(\<close> and \<open>=\<close>, on which the engine throws, and calls \<open>handleHistoryClick\<close>
  with the entry's result while the promise is pending (the handler has no guard). Now the
  result is \<open>5\<close>, the buffer equals it, and \<open>7\<close> is a label of the default case that is not
  an operator; but \<open>isLoading\<close> holds, the press is ignored and the buffer stays \<open>5\<close>.
\<close>

theorem literal_ignored_while_loading:
  "result (run sample_env busy_trace initial) \<noteq> str ''0''
   \<and> input (run sample_env busy_trace initial) = result (run sample_env busy_trace initial)
   \<and> functions_lookup sample_env (is2nd (run sample_env busy_trace initial)) (str ''7'') = None
   \<and> str ''7'' \<notin> set switch_cases \<and> str ''7'' \<notin> set operators
   \<and> input (handleButtonClick sample_env 6 (str ''7'') (run sample_env busy_trace initial))
       = str ''5''
   \<and> input (handleButtonClick sample_env 6 (str ''7'') (run sample_env busy_trace initial))
       \<noteq> str ''7''"
  unfolding busy_state by (simp add: handler_defs sample_defs)

section \<open>A failed fallback\<close>

text \<open>
  While \<open>isLoading\<close> holds, every event but the settling of the promise leaves
  \<open>isLoading\<close>, the suspended call, the history and the list of requests as they are.
\<close>

lemma step_while_loading:
  assumes "isLoading s" and "\<not> is_settled ev"
  shows "isLoading (step env (t, ev) s) \<and> awaiting (step env (t, ev) s) = awaiting s
    \<and> history (step env (t, ev) s) = history s \<and> requests (step env (t, ev) s) = requests s"
  using assms
  by (cases ev)
     (simp_all add: handleButtonClick_def handleHistoryClick_def onstart_def onresult_def
        onerror_def onend_def)

lemma run_while_loading:
  assumes "isLoading s" and "\<forall>e\<in>set evs. \<not> is_settled (snd e)"
  shows "isLoading (run env evs s) \<and> awaiting (run env evs s) = awaiting s
    \<and> history (run env evs s) = history s \<and> requests (run env evs s) = requests s"
  using assms
proof (induction evs arbitrary: s)
  case Nil
  then show ?case by (simp add: run_Nil)
next
  case (Cons e evs)
  obtain t ev where e: "e = (t, ev)" by (cases e)
  with Cons.prems have ns: "\<not> is_settled ev" by simp
  from step_while_loading [OF Cons.prems(1) ns, of env t] Cons.IH [of "step env e s"] Cons.prems(2) e
  show ?case by (simp add: run_Cons)
qed

text \<open>
  C2. An evaluation whose guarded block throws calls the fallback; whatever happens while
  the promise is pending, when the service answers \<open>Error\<close> (or with no object at all) or
  the call fails, the display shows an error marker (\<open>Error\<close>, or \<open>API Error\<close> for a
  failed call), the input buffer is empty and the history is what it was before the
  evaluation.
\<close>

theorem failed_fallback_end_state:
  assumes "\<not> isLoading s" and "input s \<noteq> []" and "formattedResult env s = Inl err"
    and "\<forall>e\<in>set evs. \<not> is_settled (snd e)"
    and "outcome = Rejected \<or> outcome = Resolved None
      \<or> outcome = Resolved (Some (str ''Error''))"
  shows "result (run env ((now, ButtonClick (str ''='')) # evs @ [(later, GeminiSettled outcome)]) s)
           = (if outcome = Rejected then str ''API Error'' else str ''Error'')
    \<and> input (run env ((now, ButtonClick (str ''='')) # evs @ [(later, GeminiSettled outcome)]) s) = []
    \<and> history (run env ((now, ButtonClick (str ''='')) # evs @ [(later, GeminiSettled outcome)]) s)
           = history s
    \<and> requests (run env ((now, ButtonClick (str ''='')) # evs @ [(later, GeminiSettled outcome)]) s)
           = requests s @ [input s]"
proof -
  let ?s1 = "step env (now, ButtonClick (str ''='')) s"
  let ?s2 = "run env evs ?s1"
  have s1: "?s1 = s\<lparr>isLoading := True, result := [], awaiting := Some (input s),
      requests := requests s @ [input s]\<rparr>"
    using assms(1-3)
    by (simp add: handleButtonClick_def handleCalculate_def equals_not_in_functions)
       (simp add: str_def)
  then have "isLoading ?s1" by simp
  from run_while_loading [OF this assms(4), of env] s1
  have s2: "awaiting ?s2 = Some (input s)" "history ?s2 = history s"
    "requests ?s2 = requests s @ [input s]"
    by simp_all
  have "run env ((now, ButtonClick (str ''='')) # evs @ [(later, GeminiSettled outcome)]) s
      = handleCalculate_resume later outcome ?s2"
    by (simp add: run_Cons run_append run_Nil)
  with s2 assms(5) show ?thesis
    by (auto simp: handleCalculate_resume_def)
qed

text \<open>
  The theorem of C2 at the sample session that types \<open>(2+3\<close>: while the promise is
  pending a transcript arrives, a history entry is clicked and a key is pressed; then the
  service answers \<open>Error\<close>.
\<close>

theorem failed_fallback_end_state_witness:
  "\<not> isLoading (run sample_env unbalanced_trace initial)
   \<and> input (run sample_env unbalanced_trace initial) = str ''(2+3''
   \<and> formattedResult sample_env (run sample_env unbalanced_trace initial) = Inl EvaluateError
   \<and> result (run sample_env
        ((5, ButtonClick (str ''='')) #
         [(6, SpeechResult (str ''two'')), (7, HistoryClick (str ''9'')), (8, ButtonClick (str ''1''))]
         @ [(9, GeminiSettled (Resolved (Some (str ''Error''))))])
        (run sample_env unbalanced_trace initial)) = str ''Error''
   \<and> input (run sample_env
        ((5, ButtonClick (str ''='')) #
         [(6, SpeechResult (str ''two'')), (7, HistoryClick (str ''9'')), (8, ButtonClick (str ''1''))]
         @ [(9, GeminiSettled (Resolved (Some (str ''Error''))))])
        (run sample_env unbalanced_trace initial)) = []
   \<and> history (run sample_env
        ((5, ButtonClick (str ''='')) #
         [(6, SpeechResult (str ''two'')), (7, HistoryClick (str ''9'')), (8, ButtonClick (str ''1''))]
         @ [(9, GeminiSettled (Resolved (Some (str ''Error''))))])
        (run sample_env unbalanced_trace initial)) = []"
proof -
  let ?s = "run sample_env unbalanced_trace initial"
  let ?evs = "[(6, SpeechResult (str ''two'')), (7, HistoryClick (str ''9'')),
    (8::nat, ButtonClick (str ''1''))]"
  have idle: "\<not> isLoading ?s" and inp: "input ?s = str ''(2+3''" and h: "history ?s = []"
    unfolding unbalanced_state by (simp_all add: initial_def)
  have ne: "input ?s \<noteq> []"
    unfolding inp by (simp add: str_def)
  have throws: "formattedResult sample_env ?s = Inl EvaluateError"
    unfolding unbalanced_state by (simp add: sample_defs)
  have pending: "\<forall>e\<in>set ?evs. \<not> is_settled (snd e)"
    by simp
  have outcome: "Resolved (Some (str ''Error'')) = Rejected
      \<or> Resolved (Some (str ''Error'')) = Resolved None
      \<or> Resolved (Some (str ''Error'')) = Resolved (Some (str ''Error''))"
    by simp
  from failed_fallback_end_state [OF idle ne throws pending outcome, of 5 9] idle inp throws h
  show ?thesis by simp
qed


section \<open>The history\<close>

text \<open>What each handler does to the history.\<close>

lemma history_handleClear: "history (handleClear s) = history s"
  by (simp add: handleClear_def)

lemma history_handleMicClick: "history (handleMicClick env s) = history s"
  by (simp add: handleMicClick_def)

lemma history_handleButtonClick:
  "history (handleButtonClick env t v s) =
     (if \<not> isLoading s \<and> functions_lookup env (is2nd s) v = None \<and> v = str ''=''
      then history (handleCalculate env t s) else history s)"
proof (cases "isLoading s")
  case True
  then show ?thesis by (simp add: handleButtonClick_def)
next
  case idle: False
  show ?thesis
  proof (cases "functions_lookup env (is2nd s) v")
    case None
    show ?thesis
    proof (cases "v = str ''=''")
      case True
      with None idle show ?thesis by (simp add: handleButtonClick_def str_def)
    next
      case False
      with None idle show ?thesis
        by (simp add: handleButtonClick_def history_handleClear history_handleMicClick)
    qed
  next
    case (Some f)
    with idle show ?thesis by (simp add: handleButtonClick_def)
  qed
qed

lemma history_handleCalculate:
  "history (handleCalculate env t s) =
     (if input s = [] then history s
      else case formattedResult env s of
        Inl err \<Rightarrow> history s
      | Inr r \<Rightarrow> prepend_slice \<lparr>item_input = input s, item_result = r, item_date = t\<rparr> (history s))"
  by (simp add: handleCalculate_def split: sum.splits)

lemma history_handleCalculate_resume:
  "history (handleCalculate_resume t outcome s) =
     (case (awaiting s, outcome) of
        (Some captured, Resolved (Some r)) \<Rightarrow>
          if r \<noteq> str ''Error''
          then prepend_slice \<lparr>item_input = captured, item_result = r, item_date = t\<rparr> (history s)
          else history s
      | _ \<Rightarrow> history s)"
  by (simp add: handleCalculate_resume_def split: option.splits gemini_outcome.splits)

lemma step_history:
  "history (step env (t, ev) s) = history s
   \<or> (\<exists>i r. history (step env (t, ev) s)
         = prepend_slice \<lparr>item_input = i, item_result = r, item_date = t\<rparr> (history s))"
proof (cases ev)
  case (ButtonClick v)
  then show ?thesis
    by (auto simp: history_handleButtonClick history_handleCalculate split: sum.splits)
next
  case (GeminiSettled outcome)
  then show ?thesis
    by (auto simp: history_handleCalculate_resume split: option.splits gemini_outcome.splits)
qed (simp_all add: handleHistoryClick_def onstart_def onresult_def onerror_def onend_def)

lemma length_prepend_slice: "length (prepend_slice item h) \<le> 20"
  by (simp add: prepend_slice_def)

lemma run_history_length:
  "length (history s) \<le> 20 \<Longrightarrow> length (history (run env evs s)) \<le> 20"
proof (induction evs arbitrary: s)
  case Nil
  then show ?case by (simp add: run_Nil)
next
  case (Cons e evs)
  obtain t ev where e: "e = (t, ev)" by (cases e)
  from step_history [of env t ev s] Cons.prems
  have "length (history (step env e s)) \<le> 20"
    unfolding e by (auto simp: length_prepend_slice)
  from Cons.IH [OF this] show ?case by (simp add: run_Cons)
qed

lemma newest_first_prepend_slice:
  assumes "newest_first h" and "\<forall>i\<in>set h. item_date i \<le> item_date item"
  shows "newest_first (prepend_slice item h)"
proof -
  from assms have "sorted_wrt (\<lambda>a b. item_date b \<le> item_date a) (item # h)"
    by (simp add: newest_first_def)
  then show ?thesis
    unfolding newest_first_def prepend_slice_def by (rule sorted_wrt_take)
qed

lemma run_newest_first:
  assumes "sorted (map fst evs)" and "newest_first (history s)"
    and "\<forall>i\<in>set (history s). \<forall>e\<in>set evs. item_date i \<le> fst e"
  shows "newest_first (history (run env evs s))"
  using assms
proof (induction evs arbitrary: s)
  case Nil
  then show ?case by (simp add: run_Nil)
next
  case (Cons e evs)
  obtain t ev where e: "e = (t, ev)" by (cases e)
  let ?s' = "step env e s"
  from Cons.prems(3) e have old: "\<forall>i\<in>set (history s). item_date i \<le> t" by simp
  from Cons.prems(1) e have later: "\<forall>e'\<in>set evs. t \<le> fst e'" by simp
  have "newest_first (history ?s') \<and> (\<forall>i\<in>set (history ?s'). \<forall>e'\<in>set evs. item_date i \<le> fst e')"
  proof (rule disjE [OF step_history [of env t ev s]])
    assume "history (step env (t, ev) s) = history s"
    with Cons.prems(2,3) e show ?thesis by simp
  next
    assume "\<exists>i r. history (step env (t, ev) s)
      = prepend_slice \<lparr>item_input = i, item_result = r, item_date = t\<rparr> (history s)"
    then obtain i r where h: "history ?s'
      = prepend_slice \<lparr>item_input = i, item_result = r, item_date = t\<rparr> (history s)"
      unfolding e by blast
    have "newest_first (history ?s')"
      unfolding h using Cons.prems(2) old by (intro newest_first_prepend_slice) simp_all
    moreover have "\<forall>x\<in>set (history ?s'). item_date x \<le> t"
    proof
      fix x assume "x \<in> set (history ?s')"
      then have "x \<in> set (\<lparr>item_input = i, item_result = r, item_date = t\<rparr> # history s)"
        unfolding h prepend_slice_def by (rule in_set_takeD)
      with old show "item_date x \<le> t" by auto
    qed
    ultimately show ?thesis using later by fastforce
  qed
  moreover from Cons.prems(1) have "sorted (map fst evs)" by simp
  ultimately show ?case using Cons.IH [of ?s'] by (simp add: run_Cons)
qed

lemma take_append_take: "take n (xs @ take n ys) = take n (xs @ ys)"
  by (simp add: min_absorb1)

lemma fold_prepend_slice_bounded:
  "length h \<le> 20 \<Longrightarrow> fold prepend_slice es h = take 20 (rev es @ h)"
proof (induction es arbitrary: h)
  case Nil
  then show ?case by simp
next
  case (Cons e es)
  have "fold prepend_slice (e # es) h = fold prepend_slice es (prepend_slice e h)" by simp
  also have "\<dots> = take 20 (rev es @ prepend_slice e h)"
    by (rule Cons.IH) (simp add: prepend_slice_def)
  also have "\<dots> = take 20 (rev (e # es) @ h)"
    unfolding prepend_slice_def take_append_take by simp
  finally show ?case .
qed

lemma fold_prepend_slice:
  assumes "es \<noteq> []"
  shows "fold prepend_slice es h = take 20 (rev es @ h)"
proof -
  from assms obtain e es' where es: "es = e # es'" by (cases es) auto
  have "fold prepend_slice es h = fold prepend_slice es' (prepend_slice e h)"
    by (simp add: es)
  also have "\<dots> = take 20 (rev es' @ prepend_slice e h)"
    by (rule fold_prepend_slice_bounded) (simp add: prepend_slice_def)
  also have "\<dots> = take 20 (rev es @ h)"
    unfolding prepend_slice_def take_append_take by (simp add: es)
  finally show ?thesis .
qed

lemma fold_prepend_slice_21:
  assumes "length es = 21"
  shows "fold prepend_slice es h = rev (tl es)"
proof -
  from assms have "es \<noteq> []" by auto
  then have "fold prepend_slice es h = take 20 (rev es @ h)" by (rule fold_prepend_slice)
  also have "\<dots> = take 20 (rev es)" using assms by simp
  also have "\<dots> = rev (drop 1 es)" using assms by (simp add: take_rev)
  finally show ?thesis by (simp add: drop_Suc)
qed

text \<open>
  C3. In every state that a session reaches the history has at most 20 entries, and, the
  clock not running backwards, they are ordered most recent first. A successful
  evaluation, by the engine or by the fallback, puts exactly one new entry in front and
  keeps the first 19 of the old ones, which drops the oldest of 20. Hence of 21 entries
  made in a row the first is gone: the history is the last 20, newest first.
\<close>

theorem history_capped_newest_first:
  "length (history (run env evs initial)) \<le> 20
   \<and> (sorted (map fst evs) \<longrightarrow> newest_first (history (run env evs initial)))
   \<and> (input s \<noteq> [] \<and> formattedResult env s = Inr r \<longrightarrow>
        history (handleCalculate env now s)
          = prepend_slice \<lparr>item_input = input s, item_result = r, item_date = now\<rparr> (history s))
   \<and> (awaiting s' = Some captured \<and> r' \<noteq> str ''Error'' \<longrightarrow>
        history (handleCalculate_resume later (Resolved (Some r')) s')
          = prepend_slice \<lparr>item_input = captured, item_result = r', item_date = later\<rparr>
              (history s'))
   \<and> prepend_slice item h = item # take 19 h
   \<and> (length h = 20 \<longrightarrow> prepend_slice item h = item # butlast h)
   \<and> (length es = 21 \<longrightarrow> fold prepend_slice es h = rev (tl es))
   \<and> (length es = 21 \<and> distinct es \<longrightarrow> hd es \<notin> set (fold prepend_slice es h))"
proof (intro conjI impI)
  show "length (history (run env evs initial)) \<le> 20"
    by (rule run_history_length) (simp add: initial_def)
  show "newest_first (history (run env evs initial))" if "sorted (map fst evs)"
    using that by (rule run_newest_first) (simp_all add: initial_def newest_first_def)
  show "history (handleCalculate env now s)
      = prepend_slice \<lparr>item_input = input s, item_result = r, item_date = now\<rparr> (history s)"
    if "input s \<noteq> [] \<and> formattedResult env s = Inr r"
    using that by (simp add: history_handleCalculate)
  show "history (handleCalculate_resume later (Resolved (Some r')) s')
      = prepend_slice \<lparr>item_input = captured, item_result = r', item_date = later\<rparr> (history s')"
    if "awaiting s' = Some captured \<and> r' \<noteq> str ''Error''"
    using that by (simp add: history_handleCalculate_resume)
  show "prepend_slice item h = item # take 19 h"
    by (simp add: prepend_slice_def)
  show "prepend_slice item h = item # butlast h" if "length h = 20"
    using that by (simp add: prepend_slice_def butlast_conv_take)
  show "fold prepend_slice es h = rev (tl es)" if "length es = 21"
    using that by (rule fold_prepend_slice_21)
  show "hd es \<notin> set (fold prepend_slice es h)" if "length es = 21 \<and> distinct es"
  proof -
    from that have "fold prepend_slice es h = rev (tl es)"
      by (simp add: fold_prepend_slice_21)
    moreover from that have "hd es \<notin> set (tl es)"
      by (cases es) auto
    ultimately show ?thesis by simp
  qed
qed

text \<open>
  The theorem of C3 at the sample session of 21 evaluations, whose times increase: the
  history has 20 entries, of the times 21 down to 2, and the entry of the first
  evaluation is not among them.
\<close>

lemma history_after_21_evaluations:
  "history (run sample_env (evaluations 21) initial) = map entry (rev [2..<22])"
  by (simp add: evaluations_def entry_def handler_defs sample_defs upt_rec)

theorem history_capped_newest_first_witness:
  "length (history (run sample_env (evaluations 21) initial)) \<le> 20
   \<and> sorted (map fst (evaluations 21))
   \<and> newest_first (history (run sample_env (evaluations 21) initial))
   \<and> history (run sample_env (evaluations 21) initial) = map entry (rev [2..<22])
   \<and> history (handleCalculate sample_env 1 (initial\<lparr>input := str ''5''\<rparr>)) = [entry 1]
   \<and> history (handleCalculate_resume 9 (Resolved (Some (str ''9'')))
        (run sample_env listening_trace initial))
       = [\<lparr>item_input = str ''('', item_result = str ''9'', item_date = 9\<rparr>]
   \<and> prepend_slice (entry 21) (map entry (rev [1..<21])) = entry 21 # map entry (rev [2..<21])
   \<and> fold prepend_slice (map entry [1..<22]) [] = map entry (rev [2..<22])
   \<and> entry 1 \<notin> set (fold prepend_slice (map entry [1..<22]) [])"
proof -
  let ?s = "initial\<lparr>input := str ''5''\<rparr>"
  let ?s' = "run sample_env listening_trace initial"
  let ?h = "map entry (rev [1..<21])"
  let ?es = "map entry [1..<22]"
  have times: "sorted (map fst (evaluations 21))"
    by (simp add: evaluations_def upt_rec)
  have ok: "input ?s \<noteq> [] \<and> formattedResult sample_env ?s = Inr (str ''5'')"
    by (simp add: sample_defs)
  have pending: "awaiting ?s' = Some (str ''('') \<and> str ''9'' \<noteq> str ''Error''"
    unfolding listening_state by (simp add: str_def)
  have full: "length ?h = 20"
    by simp
  have many: "length ?es = 21"
    by simp
  have "distinct ?es"
    by (simp add: distinct_map inj_on_def entry_def)
  with many have apart: "length ?es = 21 \<and> distinct ?es" ..
  have es: "[1..<22] = 1 # [2..<(22::nat)]" and hs: "[1..<21] = 1 # [2..<(21::nat)]"
    by code_simp+
  have first: "hd ?es = entry 1" and rest: "rev (tl ?es) = map entry (rev [2..<22])"
    unfolding es by simp_all
  have older: "butlast ?h = map entry (rev [2..<21])"
    unfolding hs by simp
  have start: "history ?s = []" "input ?s = str ''5''"
    by (simp_all add: initial_def)
  have start': "history ?s' = []"
    unfolding listening_state by simp
  note all = history_capped_newest_first
    [of sample_env "evaluations 21" ?s "str ''5''" 1 ?s' "str ''(''" "str ''9''" 9 "entry 21" ?h ?es]
  from all have "length (history (run sample_env (evaluations 21) initial)) \<le> 20"
    by (rule conjunct1)
  moreover note times
  moreover from all times
  have "newest_first (history (run sample_env (evaluations 21) initial))"
    by blast
  moreover note history_after_21_evaluations
  moreover from all ok
  have "history (handleCalculate sample_env 1 ?s)
      = prepend_slice \<lparr>item_input = input ?s, item_result = str ''5'', item_date = 1\<rparr> (history ?s)"
    by blast
  then have "history (handleCalculate sample_env 1 ?s) = [entry 1]"
    unfolding start by (simp add: prepend_slice_def entry_def)
  moreover from all pending
  have "history (handleCalculate_resume 9 (Resolved (Some (str ''9''))) ?s')
      = prepend_slice \<lparr>item_input = str ''('', item_result = str ''9'', item_date = 9\<rparr> (history ?s')"
    by blast
  then have "history (handleCalculate_resume 9 (Resolved (Some (str ''9''))) ?s')
      = [\<lparr>item_input = str ''('', item_result = str ''9'', item_date = 9\<rparr>]"
    unfolding start' by (simp add: prepend_slice_def)
  moreover from all full have "prepend_slice (entry 21) ?h = entry 21 # butlast ?h"
    by blast
  then have "prepend_slice (entry 21) ?h = entry 21 # map entry (rev [2..<21])"
    unfolding older .
  moreover note all' = history_capped_newest_first
    [of sample_env "evaluations 21" ?s "str ''5''" 1 ?s' "str ''(''" "str ''9''" 9 "entry 21" "[]" ?es]
  from all' many have "fold prepend_slice ?es [] = rev (tl ?es)"
    by blast
  then have "fold prepend_slice ?es [] = map entry (rev [2..<22])"
    unfolding rest .
  moreover from all' apart have "hd ?es \<notin> set (fold prepend_slice ?es [])"
    by blast
  then have "entry 1 \<notin> set (fold prepend_slice ?es [])"
    unfolding first .
  ultimately show ?thesis
    by (intro conjI)
qed

section \<open>Dictation\<close>

lemma sanitized_two: "sanitizedTranscript (str ''two'') = str ''2''"
  by (simp add: regex_defs str_def)

lemma calc_char_allowed: "calc_char c \<Longrightarrow> c \<in> set (str ''0123456789+-*/^().'')"
proof -
  assume "calc_char c"
  then consider "48 \<le> c \<and> c \<le> 57" | "c \<in> set (str ''+-*/^().'')"
    by (auto simp: calc_char_def)
  then show ?thesis
  proof cases
    case 1
    then have "c = 48 \<or> c = 49 \<or> c = 50 \<or> c = 51 \<or> c = 52 \<or> c = 53 \<or> c = 54 \<or> c = 55
      \<or> c = 56 \<or> c = 57" by arith
    then show ?thesis by (auto simp: str_def)
  next
    case 2
    then show ?thesis by (auto simp: str_def)
  qed
qed

text \<open>
  C8. The rewriting of a transcript is a total function. Its result contains only the
  characters \<open>0-9 + - * / ^ ( ) .\<close>, and the handler appends it to the input buffer. A
  transcript in which no replacement matches and no such character occurs appends the
  empty string. \<open>two plus three times four\<close> appends \<open>2+3*4\<close>.
\<close>

theorem transcript_canonicalized_and_appended:
  "set (sanitizedTranscript t) \<subseteq> set (str ''0123456789+-*/^().'')
   \<and> input (onresult env spoken s) = input s @ sanitizedTranscript (toLowerCase env spoken)
   \<and> step env (now, SpeechResult spoken) s = onresult env spoken s
   \<and> (replace_spoken t = t \<and> (\<forall>c\<in>set t. \<not> calc_char c) \<longrightarrow> sanitizedTranscript t = [])
   \<and> sanitizedTranscript (str ''two plus three times four'') = str ''2+3*4''"
proof (intro conjI impI)
  show "set (sanitizedTranscript t) \<subseteq> set (str ''0123456789+-*/^().'')"
    using calc_char_allowed by (auto simp: sanitizedTranscript_def)
  show "input (onresult env spoken s) = input s @ sanitizedTranscript (toLowerCase env spoken)"
    by (simp add: onresult_def)
  show "step env (now, SpeechResult spoken) s = onresult env spoken s"
    by simp
  show "sanitizedTranscript t = []" if "replace_spoken t = t \<and> (\<forall>c\<in>set t. \<not> calc_char c)"
    using that by (simp add: sanitizedTranscript_def)
  show "sanitizedTranscript (str ''two plus three times four'') = str ''2+3*4''"
    by (simp add: regex_defs str_def)
qed

text \<open>
  The theorem of C8 at the transcript \<open>Hello there\<close>, dictated into the buffer \<open>1+\<close>.
\<close>

theorem transcript_canonicalized_and_appended_witness:
  "replace_spoken (str ''hello there'') = str ''hello there''
   \<and> filter calc_char (str ''hello there'') = []
   \<and> sanitizedTranscript (str ''hello there'') = []
   \<and> input (onresult sample_env (str ''Hello there'') (initial\<lparr>input := str ''1+''\<rparr>)) = str ''1+''"
proof -
  have unmatched: "replace_spoken (str ''hello there'') = str ''hello there''"
    by (simp add: regex_defs str_def)
  have none: "\<forall>c\<in>set (str ''hello there''). \<not> calc_char c"
    by (simp add: calc_char_def str_def)
  have lower: "toLowerCase sample_env (str ''Hello there'') = str ''hello there''"
    by (simp add: sample_env_def str_def)
  from transcript_canonicalized_and_appended
    [of "str ''hello there''" sample_env "str ''Hello there''" "initial\<lparr>input := str ''1+''\<rparr>"]
    unmatched none lower
  show ?thesis by (simp add: str_def)
qed

text \<open>
  C7 does not hold of the code: \<open>onresult\<close> does not look at \<open>isLoading\<close>. In the sample
  session the capture is started, then \<open>=\<close> is pressed on \<open>(\<close>, the engine throws and the
  promise of the fallback is pending; the transcript \<open>Two\<close> that arrives now changes the
  input buffer from \<open>(\<close> to \<open>(2\<close>.
\<close>

theorem transcript_appended_while_evaluating:
  "isLoading (run sample_env listening_trace initial)
   \<and> awaiting (run sample_env listening_trace initial) = Some (str ''('')
   \<and> input (run sample_env listening_trace initial) = str ''(''
   \<and> input (step sample_env (5, SpeechResult (str ''Two'')) (run sample_env listening_trace initial))
       = str ''(2''"
  unfolding listening_state
  by (simp add: onresult_def sample_env_def str_def sanitized_two [unfolded str_def, simplified])


end
